theory Spec2Isabelle
  imports Main "HOL-Library.Word"
begin

section \<open>The timer of cyber/timer/timer.cc\<close>

text \<open>
  The development follows \<^verbatim>\<open>cyber/timer/timer.cc\<close>: the handle \<^verbatim>\<open>Timer\<close> with
  \<^verbatim>\<open>InitTimerTask\<close>, \<^verbatim>\<open>Start\<close> and \<^verbatim>\<open>Stop\<close>, and the two closures that
  \<^verbatim>\<open>InitTimerTask\<close> installs as the task's callback. Its first part is sequential: one
  call runs to its end before the next begins, so \<^verbatim>\<open>std::atomic::exchange\<close> is a read
  followed by a write and a \<^verbatim>\<open>std::lock_guard\<close> is always granted at once. The part on
  two threads cuts \<^verbatim>\<open>Stop\<close> and a closure into steps and runs them in any order.
\<close>

type_synonym u64 = "64 word"
type_synonym u32 = "32 word"

subsection \<open>What timer.cc takes from other files\<close>

text \<open>
  \<^verbatim>\<open>TIMER_RESOLUTION_MS\<close> and \<^verbatim>\<open>TIMER_MAX_INTERVAL_MS\<close> are constants of the timing
  wheel's header and \<^verbatim>\<open>IsRealityMode\<close> is a query on the global data; none of them is
  defined in timer.cc, so they are parameters here. The two roundings of the periodic
  closure, \<^verbatim>\<open>llround(static_cast<double>(x) / 1e6)\<close> on the unsigned
  \<^verbatim>\<open>execute_time_ns\<close> and on the signed \<^verbatim>\<open>accumulated_error_ns\<close>, are fields of the
  environment too, so that what does not depend on them is proved for any rounding;
  \<open>timer_env\<close> below fills them with what the expressions compute.
\<close>

record env =
  IsRealityMode :: bool
  TIMER_RESOLUTION_MS :: u64
  TIMER_MAX_INTERVAL_MS :: u64
  llround_unsigned :: "u64 \<Rightarrow> u64"
  llround_signed :: "u64 \<Rightarrow> u64"

subsection \<open>The rounding, in double precision\<close>

text \<open>
  \<^verbatim>\<open>llround(static_cast<double>(x) / 1e6)\<close> in IEEE 754 binary64 with the default
  rounding (to nearest, ties to even), on integers. A double is an integer of at most 53
  bits times a power of two.

  \<open>round_half_even n d\<close> is the integer nearest to \<open>n / d\<close>, ties to the even one.
\<close>

definition round_half_even :: "int \<Rightarrow> int \<Rightarrow> int" where
  "round_half_even n d =
     (let q = n div d; r = n mod d in
      if 2 * r < d then q else if d < 2 * r then q + 1 else if even q then q else q + 1)"

text \<open>
  \<^verbatim>\<open>static_cast<double>(i)\<close> for a 64-bit integer: below \<open>2 ^ 53\<close> the value itself;
  above, the nearest multiple of \<open>2 ^ e\<close>, where \<open>e\<close> is the number of bits by which the
  magnitude exceeds 53 (at most 11).
\<close>

fun halvings :: "nat \<Rightarrow> int \<Rightarrow> nat" where
  "halvings 0 n = 0"
| "halvings (Suc k) n = (if n < 2 ^ 53 then 0 else Suc (halvings k (n div 2)))"

definition double_of_int :: "int \<Rightarrow> int" where
  "double_of_int i =
     (let a = \<bar>i\<bar>; e = halvings 11 a; m = round_half_even a (2 ^ e) in sgn i * (m * 2 ^ e))"

text \<open>
  \<^verbatim>\<open>llround(d / 1e6)\<close> for a double \<open>d\<close> that holds an integer of magnitude at most
  \<open>2 ^ 64\<close>. The quotient is the double nearest to \<open>d / 1000000\<close>: with \<open>s\<close> the scale
  at which \<open>\<bar>d\<bar> * 2 ^ s / 1000000\<close> has 53 bits (between 8 and 72 here), it is
  \<open>m / 2 ^ s\<close> for the integer \<open>m\<close> nearest to that. \<^verbatim>\<open>llround\<close> then rounds to the
  nearest integer, halves away from zero.
\<close>

fun doublings :: "nat \<Rightarrow> int \<Rightarrow> nat" where
  "doublings 0 n = 0"
| "doublings (Suc k) n = (if 2 ^ 52 * 1000000 \<le> n then 0 else Suc (doublings k (2 * n)))"

definition llround_quotient :: "int \<Rightarrow> int" where
  "llround_quotient d =
     (if d = 0 then 0
      else let a = \<bar>d\<bar>; s = doublings 73 a; m = round_half_even (a * 2 ^ s) 1000000
           in sgn d * ((m + 2 ^ (s - 1)) div 2 ^ s))"

definition llround_unsigned_ieee :: "u64 \<Rightarrow> u64" where
  "llround_unsigned_ieee x = word_of_int (llround_quotient (double_of_int (uint x)))"

definition llround_signed_ieee :: "u64 \<Rightarrow> u64" where
  "llround_signed_ieee x = word_of_int (llround_quotient (double_of_int (sint x)))"


definition sample_env :: env where
  "sample_env = \<lparr>IsRealityMode = True, TIMER_RESOLUTION_MS = 2,
     TIMER_MAX_INTERVAL_MS = 65536, llround_unsigned = llround_unsigned_ieee,
     llround_signed = llround_signed_ieee\<rparr>"

subsection \<open>The rounding, as the specification reads it\<close>

text \<open>
  \<open>round(x / 1e6)\<close> on the exact quotient, halves away from zero, and the next firing
  offset of the specification's step 7 with it: from the resolution, the interval, the
  execution time in milliseconds and the accumulated error in nanoseconds.
\<close>

definition round_half_away :: "int \<Rightarrow> int" where
  "round_half_away i =
     (if 0 \<le> i then (i + 500000) div 1000000 else - ((- i + 500000) div 1000000))"


subsection \<open>Data\<close>

text \<open>
  A closure installed by \<^verbatim>\<open>InitTimerTask\<close> captures the user's callback by value and a
  \<^verbatim>\<open>std::weak_ptr\<close> to the task. User callbacks are opaque: each is named by a number,
  and running one appends its name to the trace \<open>invoked\<close> of the world. The weak pointer
  is the address of the task in the store.
\<close>

datatype wrapped = OneshotCallback nat nat | PeriodicCallback nat nat

text \<open>
  Modelled from the spec: \<^verbatim>\<open>struct TimerTask\<close> is declared in the timer task's header,
  not in timer.cc. The fields timer.cc reads and writes are taken as 64-bit, with
  \<^verbatim>\<open>accumulated_error_ns\<close> signed (read through \<open>sint\<close>), and the constructor
  \<^verbatim>\<open>TimerTask(timer_id)\<close> leaves every other field zero and the callback empty.
\<close>

record TimerTask =
  task_timer_id :: u64
  callback :: "wrapped option"
  interval_ms :: u64
  next_fire_duration_ms :: u64
  accumulated_error_ns :: u64
  last_execute_time_ns :: u64

definition new_TimerTask :: "u64 \<Rightarrow> TimerTask" where
  "new_TimerTask tid = \<lparr>task_timer_id = tid, callback = None, interval_ms = 0,
     next_fire_duration_ms = 0, accumulated_error_ns = 0, last_execute_time_ns = 0\<rparr>"

text \<open>
  Members of the source whose names end in an underscore are written without it (and
  \<^verbatim>\<open>task_\<close> as \<open>task_ptr\<close>, the task's \<^verbatim>\<open>timer_id_\<close> as \<open>task_timer_id\<close>).
  \<^verbatim>\<open>TimerOption\<close>: the period is the \<^verbatim>\<open>uint32_t\<close> of the three-argument constructor;
  \<open>user_callback\<close> names the user's function.
\<close>

record TimerOption =
  period :: u32
  user_callback :: nat
  oneshot :: bool

record Timer =
  timer_opt :: TimerOption
  timer_id :: u64
  started :: bool
  task_ptr :: "nat option"

datatype error = PeriodZero | PeriodTooLarge

text \<open>
  The world outside the handle: the store of live \<^verbatim>\<open>TimerTask\<close> objects (an address
  is mapped as long as the handle's \<^verbatim>\<open>shared_ptr\<close> owns the object), the next address
  \<^verbatim>\<open>new\<close> hands out, the tasks passed to \<^verbatim>\<open>TimingWheel::AddTask\<close> in order, the trace
  of user callbacks run, and the messages written to \<^verbatim>\<open>AERROR\<close>.
\<close>

record world =
  heap :: "nat \<rightharpoonup> TimerTask"
  fresh :: nat
  wheel :: "nat list"
  invoked :: "nat list"
  aerror :: "error list"

definition empty_world :: world where
  "empty_world = \<lparr>heap = Map.empty, fresh = 0, wheel = [], invoked = [], aerror = []\<rparr>"

subsection \<open>Construction and configuration\<close>

text \<open>\<^verbatim>\<open>Timer(period, callback, oneshot)\<close>, with the identifier taken as given.\<close>

definition new_Timer :: "u64 \<Rightarrow> u32 \<Rightarrow> nat \<Rightarrow> bool \<Rightarrow> Timer" where
  "new_Timer tid p cb os =
     \<lparr>timer_opt = \<lparr>period = p, user_callback = cb, oneshot = os\<rparr>,
      timer_id = tid, started = False, task_ptr = None\<rparr>"

definition SetTimerOption :: "Timer \<Rightarrow> TimerOption \<Rightarrow> Timer" where
  "SetTimerOption t opt = t\<lparr>timer_opt := opt\<rparr>"

text \<open>
  \<^verbatim>\<open>task_.reset()\<close>: the handle gives up its reference. The handle is taken to be the
  task's only owner (the closures hold weak pointers, and what the timing wheel holds is
  not timer.cc's business), so the object goes with it.
\<close>

fun release :: "nat option \<Rightarrow> (nat \<rightharpoonup> TimerTask) \<Rightarrow> (nat \<rightharpoonup> TimerTask)" where
  "release None h = h"
| "release (Some a) h = h(a := None)"

definition AddTask :: "nat \<Rightarrow> world \<Rightarrow> world" where
  "AddTask a w = w\<lparr>wheel := wheel w @ [a]\<rparr>"

subsection \<open>InitTimerTask\<close>

definition InitTimerTask :: "env \<Rightarrow> Timer \<Rightarrow> world \<Rightarrow> bool \<times> Timer \<times> world" where
  "InitTimerTask e t w =
     (if period (timer_opt t) = 0
      then (False, t, w\<lparr>aerror := aerror w @ [PeriodZero]\<rparr>)
      else if TIMER_MAX_INTERVAL_MS e \<le> ucast (period (timer_opt t))
      then (False, t, w\<lparr>aerror := aerror w @ [PeriodTooLarge]\<rparr>)
      else
        let a = fresh w;
            task0 = new_TimerTask (timer_id t);
            task1 = task0\<lparr>interval_ms := ucast (period (timer_opt t))\<rparr>;
            task2 = task1\<lparr>next_fire_duration_ms := interval_ms task1\<rparr>;
            cb = user_callback (timer_opt t);
            task3 = task2\<lparr>callback :=
              Some (if oneshot (timer_opt t) then OneshotCallback cb a
                    else PeriodicCallback cb a)\<rparr>
        in (True, t\<lparr>task_ptr := Some a\<rparr>,
            w\<lparr>heap := (release (task_ptr t) (heap w))(a \<mapsto> task3), fresh := Suc a\<rparr>))"

subsection \<open>The closures\<close>

definition oneshot_callback :: "nat \<Rightarrow> nat \<Rightarrow> world \<Rightarrow> world" where
  "oneshot_callback cb a w =
     (case heap w a of
        None \<Rightarrow> w
      | Some task \<Rightarrow> w\<lparr>invoked := invoked w @ [cb]\<rparr>)"

text \<open>Lines 95 to 107 of the periodic closure: the accumulated error and the last start.\<close>

definition update_error :: "u64 \<Rightarrow> TimerTask \<Rightarrow> TimerTask" where
  "update_error start task =
     (let task1 =
        (if last_execute_time_ns task = 0
         then task\<lparr>last_execute_time_ns := start\<rparr>
         else task\<lparr>accumulated_error_ns := accumulated_error_ns task +
                (start - last_execute_time_ns task - interval_ms task * 1000000)\<rparr>)
      in task1\<lparr>last_execute_time_ns := start\<rparr>)"

text \<open>Lines 109 to 127: the next offset, from the rounded execution time.\<close>

definition decide_next :: "env \<Rightarrow> u64 \<Rightarrow> TimerTask \<Rightarrow> TimerTask" where
  "decide_next e execute_time_ms task =
     (if interval_ms task \<le> execute_time_ms
      then task\<lparr>next_fire_duration_ms := TIMER_RESOLUTION_MS e\<rparr>
      else
        let accumulated_error_ms = llround_signed e (accumulated_error_ns task) in
        if accumulated_error_ms \<le>s
             interval_ms task - execute_time_ms - TIMER_RESOLUTION_MS e
        then task\<lparr>next_fire_duration_ms :=
               interval_ms task - execute_time_ms - accumulated_error_ms\<rparr>
        else task\<lparr>next_fire_duration_ms := TIMER_RESOLUTION_MS e\<rparr>)"

text \<open>
  The periodic closure; \<open>start\<close> and \<open>end\<close> are the two readings of
  \<^verbatim>\<open>Time::MonoTime().ToNanosecond()\<close>, before and after the user's callback.
\<close>

definition periodic_callback :: "env \<Rightarrow> nat \<Rightarrow> nat \<Rightarrow> u64 \<Rightarrow> u64 \<Rightarrow> world \<Rightarrow> world" where
  "periodic_callback e cb a start end w =
     (case heap w a of
        None \<Rightarrow> w
      | Some task \<Rightarrow>
          let w1 = w\<lparr>invoked := invoked w @ [cb]\<rparr>;
              execute_time_ns = end - start;
              execute_time_ms = llround_unsigned e execute_time_ns;
              task1 = update_error start task;
              task2 = decide_next e execute_time_ms task1
          in AddTask a (w1\<lparr>heap := (heap w1)(a \<mapsto> task2)\<rparr>))"

fun invoke :: "env \<Rightarrow> wrapped \<Rightarrow> u64 \<Rightarrow> u64 \<Rightarrow> world \<Rightarrow> world" where
  "invoke e (OneshotCallback cb a) start end w = oneshot_callback cb a w"
| "invoke e (PeriodicCallback cb a) start end w = periodic_callback e cb a start end w"

subsection \<open>Start and Stop\<close>

definition Start :: "env \<Rightarrow> Timer \<Rightarrow> world \<Rightarrow> Timer \<times> world" where
  "Start e t w =
     (if \<not> IsRealityMode e then (t, w)
      else
        let was = started t; t1 = t\<lparr>started := True\<rparr> in
        if \<not> was
        then (case InitTimerTask e t1 w of
                (True, t2, w2) \<Rightarrow>
                  (case task_ptr t2 of Some a \<Rightarrow> (t2, AddTask a w2) | None \<Rightarrow> (t2, w2))
              | (False, t2, w2) \<Rightarrow> (t2, w2))
        else (t1, w))"

definition Stop :: "Timer \<Rightarrow> world \<Rightarrow> Timer \<times> world" where
  "Stop t w =
     (let was = started t; t1 = t\<lparr>started := False\<rparr> in
      if was \<and> task_ptr t1 \<noteq> None
      then (t1\<lparr>task_ptr := None\<rparr>, w\<lparr>heap := release (task_ptr t1) (heap w)\<rparr>)
      else (t1, w))"

subsection \<open>Runs\<close>

text \<open>
  A task's closure invoked once for each pair of clock readings of a list, in order.
\<close>

fun invoke_all :: "env \<Rightarrow> wrapped \<Rightarrow> (u64 \<times> u64) list \<Rightarrow> world \<Rightarrow> world" where
  "invoke_all e c [] w = w"
| "invoke_all e c (clk # clks) w = invoke_all e c clks (invoke e c (fst clk) (snd clk) w)"

text \<open>
  Modelled from the spec: the timing wheel is not part of timer.cc. Of its contract only
  this is used: for each task submitted it makes one invocation of the task's wrapped
  callback. \<open>Tick\<close> takes the oldest submission off the queue and runs the callback of
  its task once, with the clock readings given; a submission whose task is gone runs
  nothing, which is also all its closure would do.
\<close>

definition Tick :: "env \<Rightarrow> u64 \<times> u64 \<Rightarrow> world \<Rightarrow> world" where
  "Tick e clk w =
     (case wheel w of
        [] \<Rightarrow> w
      | a # rest \<Rightarrow>
          let w1 = w\<lparr>wheel := rest\<rparr> in
          (case heap w1 a of
             None \<Rightarrow> w1
           | Some tk \<Rightarrow>
               (case callback tk of
                  None \<Rightarrow> w1
                | Some c \<Rightarrow> invoke e c (fst clk) (snd clk) w1)))"

fun run :: "env \<Rightarrow> (u64 \<times> u64) list \<Rightarrow> world \<Rightarrow> world" where
  "run e [] w = w"
| "run e (clk # clks) w = run e clks (Tick e clk w)"

subsection \<open>Stop and a closure on two threads\<close>

text \<open>
  \<^verbatim>\<open>Stop\<close> runs on the caller's thread and a closure on the timing wheel's. Each is cut
  where the other can run in between; a step that waits for the mutex leaves the state as
  it is. Only what the two share is kept: \<open>started\<close>, whether \<^verbatim>\<open>task_\<close> is set, the
  number of \<^verbatim>\<open>shared_ptr\<close> owners of the task (a \<^verbatim>\<open>weak_ptr::lock()\<close> resolves while
  there is one), the holder of the task's mutex, and the order of three events. The steps
  of the closure are those of both closures: lines 80, 84 and 86 of the periodic one are
  lines 71, 73 and 74 of the one-shot one.
\<close>

datatype thread = Scheduler | Caller

datatype event = CallbackBegins | CallbackEnds | StopReturns

datatype closure_pc = AtWeakLock | AtMutex | AtCallback | InCallback | AtExit | ClosureDone

datatype stop_pc = AtExchange | AtCopy | AtGuard | AtReset | AtUnlock | AtReturn | StopDone

record threads =
  handle_started :: bool
  handle_has_task :: bool
  owners :: nat
  mutex :: "thread option"
  closure_at :: closure_pc
  stop_at :: stop_pc
  events :: "event list"

text \<open>
  The closure: \<^verbatim>\<open>task_weak_ptr.lock()\<close> and the test of its result (lines 80 to 83), the
  \<^verbatim>\<open>lock_guard\<close> (line 84), the call of the user's callback (line 86) and its return,
  and the end of the closure, where the guard and the local \<^verbatim>\<open>task\<close> go.
\<close>

definition closure_step :: "threads \<Rightarrow> threads" where
  "closure_step st =
     (case closure_at st of
        AtWeakLock \<Rightarrow>
          if 0 < owners st then st\<lparr>owners := owners st + 1, closure_at := AtMutex\<rparr>
          else st\<lparr>closure_at := ClosureDone\<rparr>
      | AtMutex \<Rightarrow>
          if mutex st = None then st\<lparr>mutex := Some Scheduler, closure_at := AtCallback\<rparr>
          else st
      | AtCallback \<Rightarrow> st\<lparr>events := events st @ [CallbackBegins], closure_at := InCallback\<rparr>
      | InCallback \<Rightarrow> st\<lparr>events := events st @ [CallbackEnds], closure_at := AtExit\<rparr>
      | AtExit \<Rightarrow> st\<lparr>mutex := None, owners := owners st - 1, closure_at := ClosureDone\<rparr>
      | ClosureDone \<Rightarrow> st)"

text \<open>
  \<^verbatim>\<open>Stop\<close>: the exchange and the test of \<^verbatim>\<open>task_\<close> (line 157), the copy into
  \<^verbatim>\<open>tmp_task\<close> (line 160), the \<^verbatim>\<open>lock_guard\<close> (line 162), \<^verbatim>\<open>task_.reset()\<close>
  (line 163), the end of the guard's block (line 164), and the end of the function, where
  \<^verbatim>\<open>tmp_task\<close> goes and \<^verbatim>\<open>Stop\<close> returns.
\<close>

definition stop_step :: "threads \<Rightarrow> threads" where
  "stop_step st =
     (case stop_at st of
        AtExchange \<Rightarrow>
          let was = handle_started st; st1 = st\<lparr>handle_started := False\<rparr> in
          if was \<and> handle_has_task st1 then st1\<lparr>stop_at := AtCopy\<rparr>
          else st1\<lparr>events := events st1 @ [StopReturns], stop_at := StopDone\<rparr>
      | AtCopy \<Rightarrow> st\<lparr>owners := owners st + 1, stop_at := AtGuard\<rparr>
      | AtGuard \<Rightarrow>
          if mutex st = None then st\<lparr>mutex := Some Caller, stop_at := AtReset\<rparr> else st
      | AtReset \<Rightarrow> st\<lparr>handle_has_task := False, owners := owners st - 1, stop_at := AtUnlock\<rparr>
      | AtUnlock \<Rightarrow> st\<lparr>mutex := None, stop_at := AtReturn\<rparr>
      | AtReturn \<Rightarrow>
          st\<lparr>owners := owners st - 1, events := events st @ [StopReturns],
             stop_at := StopDone\<rparr>
      | StopDone \<Rightarrow> st)"

fun step :: "thread \<Rightarrow> threads \<Rightarrow> threads" where
  "step Scheduler st = closure_step st"
| "step Caller st = stop_step st"

fun interleave :: "thread list \<Rightarrow> threads \<Rightarrow> threads" where
  "interleave [] st = st"
| "interleave (t # ts) st = interleave ts (step t st)"

text \<open>
  A running handle whose task is about to fire: the handle owns the task, nobody holds the
  mutex, and neither the closure nor \<^verbatim>\<open>Stop\<close> has begun.
\<close>

definition running :: threads where
  "running = \<lparr>handle_started = True, handle_has_task = True, owners = 1, mutex = None,
     closure_at = AtWeakLock, stop_at = AtExchange, events = []\<rparr>"

subsection \<open>A task in mid-run\<close>

text \<open>
  A periodic task of period 100 ms that has fired before: its last start was at 1 s of the
  monotonic clock and it has run 3 ms late so far. It is the only object of its world.
\<close>

definition late_task :: TimerTask where
  "late_task = \<lparr>task_timer_id = 7, callback = Some (PeriodicCallback 1 0), interval_ms = 100,
     next_fire_duration_ms = 97, accumulated_error_ns = 3000000,
     last_execute_time_ns = 1000000000\<rparr>"

definition late_world :: world where
  "late_world = \<lparr>heap = [0 \<mapsto> late_task], fresh = 1, wheel = [], invoked = [], aerror = []\<rparr>"



section \<open>Properties\<close>

subsection \<open>What each operation returns\<close>

lemma InitTimerTask_invalid:
  assumes "period (timer_opt t) = 0 \<or> TIMER_MAX_INTERVAL_MS e \<le> ucast (period (timer_opt t))"
  shows "InitTimerTask e t w =
    (False, t, w\<lparr>aerror := aerror w @
        [if period (timer_opt t) = 0 then PeriodZero else PeriodTooLarge]\<rparr>)"
  using assms by (auto simp: InitTimerTask_def)

lemma InitTimerTask_valid:
  assumes "period (timer_opt t) \<noteq> 0" "ucast (period (timer_opt t)) < TIMER_MAX_INTERVAL_MS e"
  shows "InitTimerTask e t w =
    (True, t\<lparr>task_ptr := Some (fresh w)\<rparr>,
     w\<lparr>heap := (release (task_ptr t) (heap w))(fresh w \<mapsto>
          \<lparr>task_timer_id = timer_id t,
           callback = Some (if oneshot (timer_opt t)
                            then OneshotCallback (user_callback (timer_opt t)) (fresh w)
                            else PeriodicCallback (user_callback (timer_opt t)) (fresh w)),
           interval_ms = ucast (period (timer_opt t)),
           next_fire_duration_ms = ucast (period (timer_opt t)),
           accumulated_error_ns = 0, last_execute_time_ns = 0\<rparr>),
       fresh := Suc (fresh w)\<rparr>)"
  using assms by (simp add: InitTimerTask_def Let_def new_TimerTask_def not_le [symmetric] del: not_le)

lemma InitTimerTask_fails_iff:
  "fst (InitTimerTask e t w) \<longleftrightarrow>
     \<not> (period (timer_opt t) = 0 \<or> TIMER_MAX_INTERVAL_MS e \<le> ucast (period (timer_opt t)))"
  by (simp add: InitTimerTask_def Let_def)

lemma Start_not_reality: "\<not> IsRealityMode e \<Longrightarrow> Start e t w = (t, w)"
  by (simp add: Start_def)

lemma Start_started: "started t \<Longrightarrow> Start e t w = (t, w)"
  by (simp add: Start_def Let_def)

lemma Start_invalid:
  assumes "IsRealityMode e" "\<not> started t"
    and "period (timer_opt t) = 0 \<or> TIMER_MAX_INTERVAL_MS e \<le> ucast (period (timer_opt t))"
  shows "Start e t w =
    (t\<lparr>started := True\<rparr>, w\<lparr>aerror := aerror w @
        [if period (timer_opt t) = 0 then PeriodZero else PeriodTooLarge]\<rparr>)"
  using assms by (simp add: Start_def Let_def InitTimerTask_invalid)

lemma Start_valid:
  assumes "IsRealityMode e" "\<not> started t"
    and "period (timer_opt t) \<noteq> 0" "ucast (period (timer_opt t)) < TIMER_MAX_INTERVAL_MS e"
  shows "Start e t w =
    (t\<lparr>started := True, task_ptr := Some (fresh w)\<rparr>,
     w\<lparr>heap := (release (task_ptr t) (heap w))(fresh w \<mapsto>
          \<lparr>task_timer_id = timer_id t,
           callback = Some (if oneshot (timer_opt t)
                            then OneshotCallback (user_callback (timer_opt t)) (fresh w)
                            else PeriodicCallback (user_callback (timer_opt t)) (fresh w)),
           interval_ms = ucast (period (timer_opt t)),
           next_fire_duration_ms = ucast (period (timer_opt t)),
           accumulated_error_ns = 0, last_execute_time_ns = 0\<rparr>),
       fresh := Suc (fresh w),
       wheel := wheel w @ [fresh w]\<rparr>)"
  using assms by (simp add: Start_def Let_def InitTimerTask_valid AddTask_def)

lemma Stop_not_started: "\<not> started t \<Longrightarrow> Stop t w = (t, w)"
  by (simp add: Stop_def Let_def)

lemma Stop_running:
  "started t \<Longrightarrow> task_ptr t = Some a \<Longrightarrow>
   Stop t w = (t\<lparr>started := False, task_ptr := None\<rparr>, w\<lparr>heap := (heap w)(a := None)\<rparr>)"
  by (simp add: Stop_def Let_def)

lemma Stop_no_task:
  "started t \<Longrightarrow> task_ptr t = None \<Longrightarrow> Stop t w = (t\<lparr>started := False\<rparr>, w)"
  by (simp add: Stop_def Let_def)

lemma started_Start: "IsRealityMode e \<Longrightarrow> started (fst (Start e t w))"
  by (auto simp: Start_def Let_def InitTimerTask_def split: prod.splits bool.splits option.splits if_splits)

lemma not_started_Stop: "\<not> started (fst (Stop t w))"
  by (simp add: Stop_def Let_def)

lemma Start_twice: "case_prod (Start e) (Start e t w) = Start e t w"
proof (cases "IsRealityMode e")
  case True
  then have "started (fst (Start e t w))" by (rule started_Start)
  then show ?thesis by (cases "Start e t w") (simp add: Start_started)
next
  case False
  then show ?thesis by (simp add: Start_not_reality)
qed

lemma Stop_twice: "case_prod Stop (Stop t w) = Stop t w"
  using not_started_Stop [of t w] by (cases "Stop t w") (simp add: Stop_not_started)

subsection \<open>Initialisation and the start of a handle\<close>

lemmas sample_defs = sample_env_def new_Timer_def empty_world_def SetTimerOption_def

text \<open>
  Claim C6. \<^verbatim>\<open>InitTimerTask\<close> returns false exactly when the period is zero or not below
  \<^verbatim>\<open>TIMER_MAX_INTERVAL_MS\<close>. A failure is an ordinary return: one message goes to the
  error log and nothing else changes. On success the new task, at the address now held by
  the handle, has its interval and its next firing offset equal to the period, and its last
  execution time and accumulated error zero.
\<close>

theorem InitTimerTask_result:
  assumes "InitTimerTask e t w = (ok, t', w')"
  shows "(\<not> ok \<longleftrightarrow>
            period (timer_opt t) = 0 \<or> TIMER_MAX_INTERVAL_MS e \<le> ucast (period (timer_opt t)))
       \<and> (\<not> ok \<longrightarrow> t' = t \<and> heap w' = heap w \<and> fresh w' = fresh w \<and> wheel w' = wheel w
              \<and> invoked w' = invoked w
              \<and> aerror w' = aerror w @
                   [if period (timer_opt t) = 0 then PeriodZero else PeriodTooLarge])
       \<and> (ok \<longrightarrow> task_ptr t' = Some (fresh w) \<and> aerror w' = aerror w
              \<and> (\<exists>tk. heap w' (fresh w) = Some tk
                    \<and> interval_ms tk = ucast (period (timer_opt t))
                    \<and> next_fire_duration_ms tk = ucast (period (timer_opt t))
                    \<and> last_execute_time_ns tk = 0
                    \<and> accumulated_error_ns tk = 0))"
proof (cases "period (timer_opt t) = 0 \<or> TIMER_MAX_INTERVAL_MS e \<le> ucast (period (timer_opt t))")
  case True
  with assms show ?thesis by (auto simp: InitTimerTask_invalid)
next
  case False
  then have "period (timer_opt t) \<noteq> 0" "ucast (period (timer_opt t)) < TIMER_MAX_INTERVAL_MS e"
    by auto
  from InitTimerTask_valid [OF this, of w] assms False show ?thesis by auto
qed

text \<open>A handle with period 100 in the sample environment.\<close>

theorem InitTimerTask_result_witness:
  "InitTimerTask sample_env (new_Timer 7 100 1 False) empty_world =
     (True, (new_Timer 7 100 1 False)\<lparr>task_ptr := Some 0\<rparr>,
      snd (snd (InitTimerTask sample_env (new_Timer 7 100 1 False) empty_world)))
   \<and> (\<exists>tk. heap (snd (snd (InitTimerTask sample_env (new_Timer 7 100 1 False) empty_world))) 0
              = Some tk
          \<and> interval_ms tk = 100 \<and> next_fire_duration_ms tk = 100
          \<and> last_execute_time_ns tk = 0 \<and> accumulated_error_ns tk = 0)"
proof -
  have run: "InitTimerTask sample_env (new_Timer 7 100 1 False) empty_world =
     (True, (new_Timer 7 100 1 False)\<lparr>task_ptr := Some 0\<rparr>,
      snd (snd (InitTimerTask sample_env (new_Timer 7 100 1 False) empty_world)))"
    by (simp add: InitTimerTask_def Let_def sample_defs)
  from InitTimerTask_result [OF run] show ?thesis
    using run by (simp add: sample_defs)
qed

text \<open>
  Claim C1, as stated, fails: \<^verbatim>\<open>Start\<close> sets \<open>started\<close> by the exchange before it
  validates the period and does not set it back when \<^verbatim>\<open>InitTimerTask\<close> fails. With period
  0 the handle is left with \<open>started\<close> true, and a second \<^verbatim>\<open>Start\<close> after the period
  has been corrected to 100 creates and submits nothing.
\<close>

theorem Start_invalid_period_counterexample:
  "IsRealityMode sample_env
   \<and> \<not> started (new_Timer 7 0 1 False)
   \<and> period (timer_opt (new_Timer 7 0 1 False)) = 0
   \<and> started (fst (Start sample_env (new_Timer 7 0 1 False) empty_world))
   \<and> task_ptr (fst (Start sample_env
        (SetTimerOption (fst (Start sample_env (new_Timer 7 0 1 False) empty_world))
           \<lparr>period = 100, user_callback = 1, oneshot = False\<rparr>)
        (snd (Start sample_env (new_Timer 7 0 1 False) empty_world)))) = None
   \<and> wheel (snd (Start sample_env
        (SetTimerOption (fst (Start sample_env (new_Timer 7 0 1 False) empty_world))
           \<lparr>period = 100, user_callback = 1, oneshot = False\<rparr>)
        (snd (Start sample_env (new_Timer 7 0 1 False) empty_world)))) = []"
  by (simp add: Start_def InitTimerTask_def Let_def sample_defs)

text \<open>
  Claim C1, amended. In reality mode, on an idle handle with an invalid period,
  \<^verbatim>\<open>Start\<close> reports the failure to the error log and leaves the task unset and the rest
  of the world as it was, but \<open>started\<close> stays true. A retried \<^verbatim>\<open>Start\<close> is then a
  no-op, also after the configuration has been corrected; \<^verbatim>\<open>Stop\<close> resets
  \<open>started\<close> and changes nothing else, and after it a \<^verbatim>\<open>Start\<close> with a corrected
  configuration creates the task and submits it.
\<close>

theorem Start_invalid_period:
  assumes mode: "IsRealityMode e"
    and idle: "\<not> started t" "task_ptr t = None"
    and bad: "period (timer_opt t) = 0 \<or> TIMER_MAX_INTERVAL_MS e \<le> ucast (period (timer_opt t))"
    and good: "period opt \<noteq> 0" "ucast (period opt) < TIMER_MAX_INTERVAL_MS e"
    and first: "Start e t w = (t1, w1)"
  shows "aerror w1 = aerror w @ [if period (timer_opt t) = 0 then PeriodZero else PeriodTooLarge]
       \<and> heap w1 = heap w \<and> wheel w1 = wheel w \<and> fresh w1 = fresh w \<and> invoked w1 = invoked w
       \<and> task_ptr t1 = None \<and> started t1
       \<and> Start e (SetTimerOption t1 opt) w1 = (SetTimerOption t1 opt, w1)
       \<and> Stop t1 w1 = (t1\<lparr>started := False\<rparr>, w1)
       \<and> (case Start e (SetTimerOption (fst (Stop t1 w1)) opt) (snd (Stop t1 w1)) of
            (t3, w3) \<Rightarrow> started t3 \<and> task_ptr t3 = Some (fresh w)
              \<and> wheel w3 = wheel w @ [fresh w]
              \<and> (\<exists>tk. heap w3 (fresh w) = Some tk \<and> interval_ms tk = ucast (period opt)))"
proof -
  from Start_invalid [OF mode idle(1) bad, of w] first
  have t1: "t1 = t\<lparr>started := True\<rparr>"
    and w1: "w1 = w\<lparr>aerror := aerror w @
        [if period (timer_opt t) = 0 then PeriodZero else PeriodTooLarge]\<rparr>"
    by simp_all
  have retry: "Start e (SetTimerOption t1 opt) w1 = (SetTimerOption t1 opt, w1)"
    by (rule Start_started) (simp add: t1 SetTimerOption_def)
  have stop: "Stop t1 w1 = (t1\<lparr>started := False\<rparr>, w1)"
    by (rule Stop_no_task) (simp_all add: t1 idle)
  let ?t2 = "SetTimerOption (t1\<lparr>started := False\<rparr>) opt"
  have "\<not> started ?t2" "period (timer_opt ?t2) \<noteq> 0"
    "ucast (period (timer_opt ?t2)) < TIMER_MAX_INTERVAL_MS e"
    by (simp_all add: SetTimerOption_def good)
  note again = Start_valid [OF mode this, of w1]
  show ?thesis
    unfolding stop fst_conv snd_conv again retry
    by (simp add: t1 w1 idle SetTimerOption_def)
qed

text \<open>A handle with period 70000, above the sample maximum of 65536.\<close>

theorem Start_invalid_period_witness:
  "IsRealityMode sample_env
   \<and> TIMER_MAX_INTERVAL_MS sample_env \<le> ucast (period (timer_opt (new_Timer 7 70000 1 False)))
   \<and> aerror (snd (Start sample_env (new_Timer 7 70000 1 False) empty_world)) = [PeriodTooLarge]
   \<and> started (fst (Start sample_env (new_Timer 7 70000 1 False) empty_world))
   \<and> task_ptr (fst (Start sample_env (new_Timer 7 70000 1 False) empty_world)) = None
   \<and> task_ptr (fst (Start sample_env
        (SetTimerOption (fst (Stop (fst (Start sample_env (new_Timer 7 70000 1 False) empty_world))
                                   (snd (Start sample_env (new_Timer 7 70000 1 False) empty_world))))
           \<lparr>period = 100, user_callback = 1, oneshot = False\<rparr>)
        (snd (Stop (fst (Start sample_env (new_Timer 7 70000 1 False) empty_world))
                                   (snd (Start sample_env (new_Timer 7 70000 1 False) empty_world)))))) = Some 0"
proof -
  have mode: "IsRealityMode sample_env" by (simp add: sample_defs)
  have idle: "\<not> started (new_Timer 7 70000 1 False)" "task_ptr (new_Timer 7 70000 1 False) = None"
    by (simp_all add: sample_defs)
  have big: "TIMER_MAX_INTERVAL_MS sample_env \<le> ucast (period (timer_opt (new_Timer 7 70000 1 False)))"
    by (simp add: sample_defs)
  then have bad: "period (timer_opt (new_Timer 7 70000 1 False)) = 0
      \<or> TIMER_MAX_INTERVAL_MS sample_env \<le> ucast (period (timer_opt (new_Timer 7 70000 1 False)))"
    by (rule disjI2)
  have good: "period \<lparr>period = 100, user_callback = 1, oneshot = False\<rparr> \<noteq> 0"
    "ucast (period \<lparr>period = 100, user_callback = 1, oneshot = False\<rparr>)
       < TIMER_MAX_INTERVAL_MS sample_env"
    by (simp_all add: sample_defs)
  let ?s = "Start sample_env (new_Timer 7 70000 1 False) empty_world"
  have first: "?s = (fst ?s, snd ?s)" by simp
  from Start_invalid_period [OF mode idle bad good first]
  show ?thesis
    by (simp add: Start_def Stop_def InitTimerTask_def AddTask_def Let_def sample_defs)
qed

subsection \<open>Stopping and starting again\<close>

text \<open>
  Claim C2, as stated, fails: \<^verbatim>\<open>Stop\<close> sets \<open>started\<close> to false and clears the task,
  which is the idle configuration, and nothing in \<^verbatim>\<open>Start\<close> tells a stopped handle from
  a new one. Started, stopped and started again, the handle with period 100 owns a second
  task, at address 1, and that task has been submitted to the timing wheel after the first.
\<close>

theorem Stop_terminal_counterexample:
  "IsRealityMode sample_env
   \<and> started (fst (Start sample_env (new_Timer 7 100 1 False) empty_world))
   \<and> wheel (snd (Start sample_env (new_Timer 7 100 1 False) empty_world)) = [0]
   \<and> started (fst (Start sample_env
        (fst (Stop (fst (Start sample_env (new_Timer 7 100 1 False) empty_world))
                   (snd (Start sample_env (new_Timer 7 100 1 False) empty_world))))
        (snd (Stop (fst (Start sample_env (new_Timer 7 100 1 False) empty_world))
                   (snd (Start sample_env (new_Timer 7 100 1 False) empty_world))))))
   \<and> task_ptr (fst (Start sample_env
        (fst (Stop (fst (Start sample_env (new_Timer 7 100 1 False) empty_world))
                   (snd (Start sample_env (new_Timer 7 100 1 False) empty_world))))
        (snd (Stop (fst (Start sample_env (new_Timer 7 100 1 False) empty_world))
                   (snd (Start sample_env (new_Timer 7 100 1 False) empty_world)))))) = Some 1
   \<and> wheel (snd (Start sample_env
        (fst (Stop (fst (Start sample_env (new_Timer 7 100 1 False) empty_world))
                   (snd (Start sample_env (new_Timer 7 100 1 False) empty_world))))
        (snd (Stop (fst (Start sample_env (new_Timer 7 100 1 False) empty_world))
                   (snd (Start sample_env (new_Timer 7 100 1 False) empty_world)))))) = [0, 1]"
  by (simp add: Start_def Stop_def InitTimerTask_def AddTask_def Let_def sample_defs)

text \<open>
  Claim C2, amended. \<^verbatim>\<open>Stop\<close> on a running handle clears \<open>started\<close> and the handle's
  task reference, leaving the timing wheel's queue alone; the handle is then idle again,
  not in a terminal state: a later \<^verbatim>\<open>Start\<close> in reality mode with a valid period
  creates a new task, initialised as at the first start, and submits it.
\<close>

theorem Stop_then_Start:
  assumes mode: "IsRealityMode e"
    and running: "started t" "task_ptr t = Some a"
    and valid: "period (timer_opt t) \<noteq> 0" "ucast (period (timer_opt t)) < TIMER_MAX_INTERVAL_MS e"
    and stop: "Stop t w = (t1, w1)"
    and again: "Start e t1 w1 = (t2, w2)"
  shows "\<not> started t1 \<and> task_ptr t1 = None \<and> wheel w1 = wheel w
       \<and> started t2 \<and> task_ptr t2 = Some (fresh w)
       \<and> fresh w2 = Suc (fresh w) \<and> wheel w2 = wheel w @ [fresh w]
       \<and> (\<exists>tk. heap w2 (fresh w) = Some tk
             \<and> interval_ms tk = ucast (period (timer_opt t))
             \<and> next_fire_duration_ms tk = ucast (period (timer_opt t))
             \<and> last_execute_time_ns tk = 0 \<and> accumulated_error_ns tk = 0)"
proof -
  from Stop_running [OF running, of w] stop
  have t1: "t1 = t\<lparr>started := False, task_ptr := None\<rparr>"
    and w1: "w1 = w\<lparr>heap := (heap w)(a := None)\<rparr>"
    by simp_all
  have "\<not> started t1" "period (timer_opt t1) \<noteq> 0"
    "ucast (period (timer_opt t1)) < TIMER_MAX_INTERVAL_MS e"
    by (simp_all add: t1 valid)
  from Start_valid [OF mode this, of w1] again show ?thesis
    by (auto simp: t1 w1)
qed

text \<open>The run of the counterexample, through the theorem.\<close>

theorem Stop_then_Start_witness:
  "started (fst (Start sample_env (new_Timer 7 100 1 False) empty_world))
   \<and> task_ptr (fst (Start sample_env (new_Timer 7 100 1 False) empty_world)) = Some 0
   \<and> \<not> started (fst (Stop (fst (Start sample_env (new_Timer 7 100 1 False) empty_world))
                   (snd (Start sample_env (new_Timer 7 100 1 False) empty_world))))
   \<and> wheel (snd (Start sample_env
        (fst (Stop (fst (Start sample_env (new_Timer 7 100 1 False) empty_world))
                   (snd (Start sample_env (new_Timer 7 100 1 False) empty_world))))
        (snd (Stop (fst (Start sample_env (new_Timer 7 100 1 False) empty_world))
                   (snd (Start sample_env (new_Timer 7 100 1 False) empty_world)))))) = [0, 1]"
proof -
  let ?s = "Start sample_env (new_Timer 7 100 1 False) empty_world"
  have mode: "IsRealityMode sample_env" by (simp add: sample_defs)
  have s: "?s = ((new_Timer 7 100 1 False)\<lparr>started := True, task_ptr := Some 0\<rparr>, snd ?s)"
    by (simp add: Start_def InitTimerTask_def AddTask_def Let_def sample_defs)
  have running: "started (fst ?s)" "task_ptr (fst ?s) = Some 0"
    by (subst s, simp)+
  have valid: "period (timer_opt (fst ?s)) \<noteq> 0"
    "ucast (period (timer_opt (fst ?s))) < TIMER_MAX_INTERVAL_MS sample_env"
    by (subst s, simp add: sample_defs)+
  have w: "wheel (snd ?s) = [0]" "fresh (snd ?s) = 1"
    by (simp_all add: Start_def InitTimerTask_def AddTask_def Let_def sample_defs)
  let ?p = "Stop (fst ?s) (snd ?s)"
  let ?r = "Start sample_env (fst ?p) (snd ?p)"
  have stop: "?p = (fst ?p, snd ?p)" and again: "?r = (fst ?r, snd ?r)" by simp_all
  from Stop_then_Start [OF mode running valid stop again] running w
  show ?thesis by simp
qed

subsection \<open>Idempotence\<close>

text \<open>
  Claim C9. \<^verbatim>\<open>Start\<close> after \<^verbatim>\<open>Start\<close> and \<^verbatim>\<open>Stop\<close> after \<^verbatim>\<open>Stop\<close> change
  nothing, whatever the handle and the world. On an idle handle with a valid period in
  reality mode, two calls of \<^verbatim>\<open>Start\<close> allocate one task and make one submission; on a
  running handle two calls of \<^verbatim>\<open>Stop\<close> do what one does: clear \<open>started\<close>, drop the
  task reference and destroy that one task.
\<close>

theorem Start_Stop_idempotent:
  "case_prod (Start e) (Start e t w) = Start e t w
   \<and> case_prod Stop (Stop t w) = Stop t w
   \<and> (IsRealityMode e \<and> \<not> started t \<and> period (timer_opt t) \<noteq> 0
        \<and> ucast (period (timer_opt t)) < TIMER_MAX_INTERVAL_MS e \<longrightarrow>
      fresh (snd (case_prod (Start e) (Start e t w))) = Suc (fresh w)
      \<and> wheel (snd (case_prod (Start e) (Start e t w))) = wheel w @ [fresh w]
      \<and> task_ptr (fst (case_prod (Start e) (Start e t w))) = Some (fresh w))
   \<and> (started t \<and> task_ptr t = Some a \<longrightarrow>
      case_prod Stop (Stop t w)
        = (t\<lparr>started := False, task_ptr := None\<rparr>, w\<lparr>heap := (heap w)(a := None)\<rparr>))"
proof (intro conjI impI)
  show "case_prod (Start e) (Start e t w) = Start e t w" by (rule Start_twice)
  show "case_prod Stop (Stop t w) = Stop t w" by (rule Stop_twice)
next
  assume h: "IsRealityMode e \<and> \<not> started t \<and> period (timer_opt t) \<noteq> 0
        \<and> ucast (period (timer_opt t)) < TIMER_MAX_INTERVAL_MS e"
  then have s: "fresh (snd (Start e t w)) = Suc (fresh w)"
    "wheel (snd (Start e t w)) = wheel w @ [fresh w]"
    "task_ptr (fst (Start e t w)) = Some (fresh w)"
    by (simp_all add: Start_valid)
  show "fresh (snd (case_prod (Start e) (Start e t w))) = Suc (fresh w)"
    "wheel (snd (case_prod (Start e) (Start e t w))) = wheel w @ [fresh w]"
    "task_ptr (fst (case_prod (Start e) (Start e t w))) = Some (fresh w)"
    unfolding Start_twice by (rule s)+
next
  assume "started t \<and> task_ptr t = Some a"
  then show "case_prod Stop (Stop t w)
        = (t\<lparr>started := False, task_ptr := None\<rparr>, w\<lparr>heap := (heap w)(a := None)\<rparr>)"
    unfolding Stop_twice by (simp add: Stop_running)
qed

text \<open>Two starts of an idle handle, and two stops of a running one.\<close>

theorem Start_Stop_idempotent_witness:
  "IsRealityMode sample_env \<and> \<not> started (new_Timer 7 100 1 False)
   \<and> fresh (snd (case_prod (Start sample_env)
        (Start sample_env (new_Timer 7 100 1 False) empty_world))) = 1
   \<and> wheel (snd (case_prod (Start sample_env)
        (Start sample_env (new_Timer 7 100 1 False) empty_world))) = [0]
   \<and> case_prod Stop (Stop ((new_Timer 7 100 1 False)\<lparr>started := True, task_ptr := Some 0\<rparr>) empty_world)
       = (new_Timer 7 100 1 False, empty_world)"
  using Start_Stop_idempotent [of sample_env "new_Timer 7 100 1 False" empty_world 0]
    Start_Stop_idempotent [of sample_env "(new_Timer 7 100 1 False)\<lparr>started := True, task_ptr := Some 0\<rparr>" empty_world 0]
  by (simp add: Start_def Stop_def InitTimerTask_def AddTask_def Let_def sample_defs)

subsection \<open>Words\<close>

lemma sint_of_int_64:
  "- 9223372036854775808 \<le> k \<Longrightarrow> k < 9223372036854775808 \<Longrightarrow> sint (word_of_int k :: u64) = k"
  by (simp add: sint_sbintrunc' signed_take_bit_int_eq_self)

lemma uint_of_int_64:
  "0 \<le> k \<Longrightarrow> k < 18446744073709551616 \<Longrightarrow> uint (word_of_int k :: u64) = k"
  by (simp add: uint_word_of_int take_bit_int_eq_self)

lemma sint_bounds_64:
  "- 9223372036854775808 \<le> sint (c :: u64)" "sint (c :: u64) < 9223372036854775808"
  using sint_ge [of c] sint_lt [of c] by simp_all

lemma compensated_offset_ge:
  fixes i x r c :: u64
  assumes less: "x < i" and small: "uint i < 2 ^ 63" and res: "uint r \<le> 2 ^ 63"
    and fits: "c \<le>s i - x - r"
  shows "r \<le> i - x - c"
proof -
  define d where "d = uint i - uint x"
  have d1: "1 \<le> d" using less by (simp add: d_def word_less_def)
  have x0: "0 \<le> uint x" and r0: "0 \<le> uint r" by simp_all
  have small': "uint i < 9223372036854775808" using small by simp
  have res': "uint r \<le> 9223372036854775808" using res by simp
  have d2: "d < 9223372036854775808" unfolding d_def using small' x0 by linarith
  have a: "i - x - r = word_of_int (d - uint r)" by (simp add: d_def)
  have "sint (i - x - r) = d - uint r"
    unfolding a using d1 d2 res' r0 by (intro sint_of_int_64) linarith+
  then have c: "sint c \<le> d - uint r" using fits by (simp add: word_sle_eq)
  have n: "i - x - c = word_of_int (d - sint c)" by (simp add: d_def)
  have "uint (i - x - c) = d - sint c"
    unfolding n using c d2 r0 sint_bounds_64 [of c] by (intro uint_of_int_64) linarith+
  then show ?thesis using c by (simp add: word_le_def)
qed

subsection \<open>Double precision against exact rounding\<close>

text \<open>
  Below \<open>2 ^ 53\<close> the conversion to double is exact and the quotient's error is under
  \<open>2 ^ -20\<close>, less than the millionth that separates an integer quotient from a half:
  \<^verbatim>\<open>llround\<close> of the double quotient is the rounding of the exact one.
\<close>

lemma rhe_lower: "0 < d \<Longrightarrow> n div d \<le> round_half_even n d"
  by (simp add: round_half_even_def Let_def)

lemma rhe_upper: "0 < d \<Longrightarrow> 2 * (round_half_even n d * d) \<le> 2 * n + d"
proof -
  assume d: "0 < d"
  define q r where "q = n div d" and "r = n mod d"
  have n: "n = q * d + r" by (simp add: q_def r_def)
  have r: "0 \<le> r" using d by (simp add: r_def)
  have "round_half_even n d = q \<or> (round_half_even n d = q + 1 \<and> d \<le> 2 * r)"
    by (auto simp: round_half_even_def Let_def q_def r_def)
  then show ?thesis
  proof
    assume "round_half_even n d = q"
    then show ?thesis using r d by (simp add: n algebra_simps)
  next
    assume "round_half_even n d = q + 1 \<and> d \<le> 2 * r"
    then show ?thesis by (simp add: n algebra_simps)
  qed
qed

lemma halvings_small: "n < 2 ^ 53 \<Longrightarrow> halvings k n = 0"
  by (cases k) simp_all

lemma double_of_int_exact: "\<bar>i\<bar> < 2 ^ 53 \<Longrightarrow> double_of_int i = i"
  by (simp add: double_of_int_def Let_def halvings_small round_half_even_def abs_sgn mult.commute)

lemma doublings_more:
  "0 < a \<Longrightarrow> a * 2 ^ j < 2 ^ 52 * 1000000 \<Longrightarrow> j < k \<Longrightarrow> j < doublings k a"
proof (induction k arbitrary: a j)
  case 0
  then show ?case by simp
next
  case (Suc k)
  have "a \<le> a * 2 ^ j" using Suc.prems(1) by (simp add: mult_le_cancel_left1)
  then have small: "\<not> 2 ^ 52 * 1000000 \<le> a" using Suc.prems(2) by linarith
  show ?case
  proof (cases j)
    case 0
    then show ?thesis using small by simp
  next
    case (Suc j')
    have "0 < 2 * a" using Suc.prems(1) by simp
    moreover have "2 * a * 2 ^ j' < 2 ^ 52 * 1000000" using Suc.prems(2) Suc by simp
    moreover have "j' < k" using Suc.prems(3) Suc by simp
    ultimately have "j' < doublings k (2 * a)" by (rule Suc.IH)
    then show ?thesis using small Suc by simp
  qed
qed

lemma div_between:
  fixes a b k :: int
  assumes "k * b \<le> a" "a < (k + 1) * b"
  shows "a div b = k"
proof -
  have "a = b * k + (a - k * b)" by (simp add: algebra_simps)
  moreover have "0 \<le> a - k * b" using assms(1) by simp
  moreover have "a - k * b < b" using assms(2) by (simp add: algebra_simps)
  ultimately show ?thesis by (rule int_div_pos_eq)
qed

lemma llround_core:
  fixes n p :: int
  assumes n: "0 \<le> n" and p: "262144 \<le> p"
  shows "(round_half_even (n * (2 * p)) 1000000 + p) div (2 * p) = (n + 500000) div 1000000"
proof -
  define k where "k = (n + 500000) div 1000000"
  define m where "m = round_half_even (n * (2 * p)) 1000000"
  have lo: "k * 1000000 \<le> n + 500000" unfolding k_def by (simp add: mult.commute)
  have "(n + 500000) mod 1000000 < 1000000" by simp
  then have "n + 500000 < (k + 1) * 1000000"
    unfolding k_def using div_mult_mod_eq [of "n + 500000" 1000000] by (simp add: algebra_simps)
  then have hi: "n + 1 \<le> (2 * k + 1) * 500000" by simp
  have p0: "0 \<le> p" using p by simp
  \<comment> \<open>below\<close>
  have "(2 * k - 1) * 500000 \<le> n" using lo by simp
  then have "(2 * k - 1) * 500000 * (2 * p) \<le> n * (2 * p)"
    using p0 by (intro mult_right_mono) simp_all
  then have "((2 * k - 1) * p) * 1000000 \<le> n * (2 * p)" by (simp add: algebra_simps)
  then have "((2 * k - 1) * p) * 1000000 div 1000000 \<le> n * (2 * p) div 1000000"
    by (rule zdiv_mono1) simp
  then have "(2 * k - 1) * p \<le> n * (2 * p) div 1000000" by simp
  also have "\<dots> \<le> m" unfolding m_def by (rule rhe_lower) simp
  finally have below: "(2 * k - 1) * p \<le> m" .
  \<comment> \<open>above\<close>
  have "(n + 1) * (2 * p) \<le> (2 * k + 1) * 500000 * (2 * p)"
    using hi p0 by (intro mult_right_mono) simp_all
  then have N: "n * (2 * p) \<le> ((2 * k + 1) * p) * 1000000 - 2 * p" by (simp add: algebra_simps)
  have "2 * (m * 1000000) \<le> 2 * (n * (2 * p)) + 1000000"
    unfolding m_def by (rule rhe_upper) simp
  with N p have "m * 1000000 < ((2 * k + 1) * p) * 1000000" by linarith
  then have above: "m < (2 * k + 1) * p" by simp
  have "(m + p) div (2 * p) = k"
    using below above by (intro div_between) (simp_all add: algebra_simps)
  then show ?thesis by (simp add: m_def k_def)
qed

lemma llround_quotient_exact:
  assumes "\<bar>i\<bar> < 2 ^ 53"
  shows "llround_quotient (double_of_int i) = round_half_away i"
proof (cases "i = 0")
  case True
  then show ?thesis by (simp add: double_of_int_exact llround_quotient_def round_half_away_def)
next
  case False
  define a where "a = \<bar>i\<bar>"
  define s where "s = doublings 73 a"
  have a: "0 < a" "a < 2 ^ 53" using False assms by (simp_all add: a_def)
  have "a * 2 ^ 18 < 2 ^ 52 * 1000000" using a(2) by simp
  from doublings_more [OF a(1) this, of 73] have s: "18 < s" by (simp add: s_def)
  define p :: int where "p = 2 ^ (s - 1)"
  have ps: "(2 :: int) ^ s = 2 * p" using s by (cases s) (simp_all add: p_def)
  have "(2 :: int) ^ 18 \<le> 2 ^ (s - 1)" using s by (intro power_increasing) simp_all
  then have p: "262144 \<le> p" by (simp add: p_def)
  have core: "(round_half_even (a * 2 ^ s) 1000000 + 2 ^ (s - 1)) div 2 ^ s
      = (a + 500000) div 1000000"
    unfolding ps p_def [symmetric] using a(1) p by (intro llround_core) simp_all
  show ?thesis
    using False core
    by (auto simp: double_of_int_exact [OF assms] llround_quotient_def Let_def
        round_half_away_def a_def s_def)
qed


lemma llround_unsigned_ieee_exact:
  "uint x < 2 ^ 53 \<Longrightarrow>
   llround_unsigned_ieee x = word_of_int (round_half_away (uint x))"
  by (simp add: llround_unsigned_ieee_def llround_quotient_exact)

lemma llround_signed_ieee_exact:
  "\<bar>sint x\<bar> < 2 ^ 53 \<Longrightarrow>
   llround_signed_ieee x = word_of_int (round_half_away (sint x))"
  by (simp add: llround_signed_ieee_def llround_quotient_exact)


subsection \<open>The closures, field by field\<close>

lemma update_error_fields:
  "interval_ms (update_error start tk) = interval_ms tk"
  "next_fire_duration_ms (update_error start tk) = next_fire_duration_ms tk"
  "callback (update_error start tk) = callback tk"
  "task_timer_id (update_error start tk) = task_timer_id tk"
  "last_execute_time_ns (update_error start tk) = start"
  "accumulated_error_ns (update_error start tk) =
     (if last_execute_time_ns tk = 0 then accumulated_error_ns tk
      else accumulated_error_ns tk +
           (start - last_execute_time_ns tk - interval_ms tk * 1000000))"
  by (simp_all add: update_error_def Let_def)

lemma decide_next_fields:
  "interval_ms (decide_next e x tk) = interval_ms tk"
  "callback (decide_next e x tk) = callback tk"
  "task_timer_id (decide_next e x tk) = task_timer_id tk"
  "last_execute_time_ns (decide_next e x tk) = last_execute_time_ns tk"
  "accumulated_error_ns (decide_next e x tk) = accumulated_error_ns tk"
  "next_fire_duration_ms (decide_next e x tk) =
     (if interval_ms tk \<le> x then TIMER_RESOLUTION_MS e
      else if llround_signed e (accumulated_error_ns tk)
                \<le>s interval_ms tk - x - TIMER_RESOLUTION_MS e
      then interval_ms tk - x - llround_signed e (accumulated_error_ns tk)
      else TIMER_RESOLUTION_MS e)"
  by (simp_all add: decide_next_def Let_def)

lemma decide_next_ge:
  assumes "uint (interval_ms tk) < 2 ^ 63" "uint (TIMER_RESOLUTION_MS e) \<le> 2 ^ 63"
  shows "TIMER_RESOLUTION_MS e \<le> next_fire_duration_ms (decide_next e x tk)"
  using assms by (simp add: decide_next_fields compensated_offset_ge not_le)

lemma periodic_callback_dead:
  "heap w a = None \<Longrightarrow> periodic_callback e cb a start end w = w"
  by (simp add: periodic_callback_def)

lemma periodic_callback_live:
  "heap w a = Some tk \<Longrightarrow>
   periodic_callback e cb a start end w =
     w\<lparr>heap := (heap w)(a \<mapsto> decide_next e (llround_unsigned e (end - start))
                                   (update_error start tk)),
       wheel := wheel w @ [a], invoked := invoked w @ [cb]\<rparr>"
  by (simp add: periodic_callback_def Let_def AddTask_def)

lemma oneshot_callback_dead: "heap w a = None \<Longrightarrow> oneshot_callback cb a w = w"
  by (simp add: oneshot_callback_def)

lemma oneshot_callback_live:
  "heap w a = Some tk \<Longrightarrow> oneshot_callback cb a w = w\<lparr>invoked := invoked w @ [cb]\<rparr>"
  by (simp add: oneshot_callback_def)

subsection \<open>The periodic closure\<close>



text \<open>
  With start times that never decrease, a last execution time of zero means that no
  start above zero has been seen, hence that the error has never been touched.
\<close>

lemma sentinel_kept:
  assumes "heap w a = Some tk"
    and "last_execute_time_ns tk = 0 \<longrightarrow> accumulated_error_ns tk = 0"
    and "sorted (last_execute_time_ns tk # map fst clks)"
  shows "\<exists>tk'. heap (invoke_all e (PeriodicCallback cb a) clks w) a = Some tk'
      \<and> (last_execute_time_ns tk' = 0 \<longrightarrow> accumulated_error_ns tk' = 0)"
  using assms
proof (induction clks arbitrary: w tk)
  case Nil
  then show ?case by simp
next
  case (Cons clk clks)
  let ?tk1 = "decide_next e (llround_unsigned e (snd clk - fst clk)) (update_error (fst clk) tk)"
  let ?w1 = "invoke e (PeriodicCallback cb a) (fst clk) (snd clk) w"
  have live: "heap ?w1 a = Some ?tk1"
    by (simp add: periodic_callback_live [OF Cons.prems(1)])
  have le: "last_execute_time_ns tk \<le> fst clk" using Cons.prems(3) by simp
  have zero: "last_execute_time_ns ?tk1 = 0 \<longrightarrow> accumulated_error_ns ?tk1 = 0"
    using le Cons.prems(2) by (auto simp: decide_next_fields update_error_fields)
  have srt: "sorted (last_execute_time_ns ?tk1 # map fst clks)"
    using Cons.prems(3) by (simp add: decide_next_fields update_error_fields)
  from Cons.IH [OF live zero srt] show ?case by simp
qed

text \<open>
  Claim C4. When the weak reference resolves, the periodic closure sets the last execution
  time to the start of the invocation. If the last execution time was zero, the accumulated
  error is not touched; otherwise it grows by \<open>(start - last) - interval * 1000000\<close> in
  64-bit arithmetic, and as long as the signed sum stays within 64 bits this is the sum of
  the integers, which may be negative. The second part says why an untouched error is a
  zero error: for a task made by \<^verbatim>\<open>InitTimerTask\<close> and fired at start times that never
  decrease, the error is zero whenever the last execution time is.
\<close>

theorem periodic_error_update:
  assumes "heap w a = Some tk"
  shows "(\<exists>tk'. heap (periodic_callback e cb a start end w) a = Some tk'
     \<and> last_execute_time_ns tk' = start
     \<and> (last_execute_time_ns tk = 0 \<longrightarrow> accumulated_error_ns tk' = accumulated_error_ns tk)
     \<and> (last_execute_time_ns tk \<noteq> 0 \<longrightarrow>
          accumulated_error_ns tk' = accumulated_error_ns tk +
            ((start - last_execute_time_ns tk) - interval_ms tk * 1000000))
     \<and> (last_execute_time_ns tk \<noteq> 0
          \<and> - (2 ^ 63) \<le> sint (accumulated_error_ns tk)
                + ((uint start - uint (last_execute_time_ns tk))
                   - uint (interval_ms tk) * 1000000)
          \<and> sint (accumulated_error_ns tk)
                + ((uint start - uint (last_execute_time_ns tk))
                   - uint (interval_ms tk) * 1000000) < 2 ^ 63 \<longrightarrow>
          sint (accumulated_error_ns tk') = sint (accumulated_error_ns tk)
                + ((uint start - uint (last_execute_time_ns tk))
                   - uint (interval_ms tk) * 1000000)))
   \<and> (InitTimerTask e t w0 = (True, t', w1) \<and> \<not> oneshot (timer_opt t)
        \<and> sorted (map fst clks) \<longrightarrow>
      (\<exists>tk1. heap (invoke_all e (PeriodicCallback (user_callback (timer_opt t)) (fresh w0))
                     clks w1) (fresh w0) = Some tk1
         \<and> (last_execute_time_ns tk1 = 0 \<longrightarrow> accumulated_error_ns tk1 = 0)))"
proof (intro conjI impI)
  let ?tk' = "decide_next e (llround_unsigned e (end - start)) (update_error start tk)"
  let ?D = "sint (accumulated_error_ns tk)
                + ((uint start - uint (last_execute_time_ns tk))
                   - uint (interval_ms tk) * 1000000)"
  have h: "heap (periodic_callback e cb a start end w) a = Some ?tk'"
    by (simp add: periodic_callback_live [OF assms])
  have w: "accumulated_error_ns tk +
            ((start - last_execute_time_ns tk) - interval_ms tk * 1000000) = word_of_int ?D"
    by simp
  have s: "sint (accumulated_error_ns tk +
            ((start - last_execute_time_ns tk) - interval_ms tk * 1000000)) = ?D"
    if "- (2 ^ 63) \<le> ?D" "?D < 2 ^ 63"
    unfolding w using that by (intro sint_of_int_64) simp_all
  show "\<exists>tk'. heap (periodic_callback e cb a start end w) a = Some tk'
     \<and> last_execute_time_ns tk' = start
     \<and> (last_execute_time_ns tk = 0 \<longrightarrow> accumulated_error_ns tk' = accumulated_error_ns tk)
     \<and> (last_execute_time_ns tk \<noteq> 0 \<longrightarrow>
          accumulated_error_ns tk' = accumulated_error_ns tk +
            ((start - last_execute_time_ns tk) - interval_ms tk * 1000000))
     \<and> (last_execute_time_ns tk \<noteq> 0 \<and> - (2 ^ 63) \<le> ?D \<and> ?D < 2 ^ 63 \<longrightarrow>
          sint (accumulated_error_ns tk') = ?D)"
    using h s by (simp add: decide_next_fields update_error_fields)
next
  assume run: "InitTimerTask e t w0 = (True, t', w1) \<and> \<not> oneshot (timer_opt t)
        \<and> sorted (map fst clks)"
  then have ok: "period (timer_opt t) \<noteq> 0"
      "ucast (period (timer_opt t)) < TIMER_MAX_INTERVAL_MS e"
    using InitTimerTask_fails_iff [of e t w0] by (auto simp: not_le)
  from InitTimerTask_valid [OF ok, of w0] run
  obtain tk0 where live: "heap w1 (fresh w0) = Some tk0"
    and l0: "last_execute_time_ns tk0 = 0" and a0: "accumulated_error_ns tk0 = 0"
    by auto
  have srt: "sorted (last_execute_time_ns tk0 # map fst clks)"
    using run by (simp add: l0)
  from sentinel_kept [OF live _ srt] a0
  show "\<exists>tk1. heap (invoke_all e (PeriodicCallback (user_callback (timer_opt t)) (fresh w0))
                     clks w1) (fresh w0) = Some tk1
         \<and> (last_execute_time_ns tk1 = 0 \<longrightarrow> accumulated_error_ns tk1 = 0)"
    by simp
qed

subsection \<open>A reference that does not resolve\<close>

text \<open>
  Claim C8. If the task is gone when a closure runs, one-shot or periodic, the closure
  returns the world as it found it: the user's callback is not run, no task is changed,
  nothing is submitted to the timing wheel and nothing is logged.
\<close>

theorem dead_reference_noop:
  assumes "heap w a = None"
  shows "oneshot_callback cb a w = w \<and> periodic_callback e cb a start end w = w
       \<and> invoke e (OneshotCallback cb a) start end w = w
       \<and> invoke e (PeriodicCallback cb a) start end w = w"
  using assms by (simp add: oneshot_callback_dead periodic_callback_dead)

subsection \<open>The lower bound of the next firing offset\<close>

lemma uint_ucast_period: "uint (ucast (p :: u32) :: u64) < 2 ^ 63"
proof -
  have "uint (ucast p :: u64) = uint p" by (simp add: uint_up_ucast is_up)
  moreover have "uint p < 2 ^ 32" using uint_lt2p [of p] by simp
  ultimately show ?thesis by simp
qed

lemma invoke_keeps_task:
  assumes live: "heap w a = Some tk"
    and small: "uint (interval_ms tk) < 2 ^ 63"
    and res: "uint (TIMER_RESOLUTION_MS e) \<le> 2 ^ 63"
    and c: "c = OneshotCallback cb a \<or> c = PeriodicCallback cb a"
  shows "\<exists>tk'. heap (invoke e c start end w) a = Some tk'
      \<and> interval_ms tk' = interval_ms tk
      \<and> (c = PeriodicCallback cb a \<longrightarrow> TIMER_RESOLUTION_MS e \<le> next_fire_duration_ms tk')
      \<and> (c = OneshotCallback cb a \<longrightarrow> next_fire_duration_ms tk' = next_fire_duration_ms tk)"
proof -
  have "TIMER_RESOLUTION_MS e \<le> next_fire_duration_ms
          (decide_next e (llround_unsigned e (end - start)) (update_error start tk))"
    by (rule decide_next_ge) (use small res in \<open>simp_all add: update_error_fields\<close>)
  with c show ?thesis
    by (auto simp: periodic_callback_live [OF live] oneshot_callback_live [OF live]
        live decide_next_fields update_error_fields)
qed

lemma invoke_all_bound:
  assumes "heap w a = Some tk"
    and "uint (interval_ms tk) < 2 ^ 63"
    and res: "uint (TIMER_RESOLUTION_MS e) \<le> 2 ^ 63"
    and c: "c = OneshotCallback cb a \<or> c = PeriodicCallback cb a"
  shows "\<exists>tk'. heap (invoke_all e c clks w) a = Some tk'
      \<and> interval_ms tk' = interval_ms tk
      \<and> (TIMER_RESOLUTION_MS e \<le> next_fire_duration_ms tk
           \<or> (c = PeriodicCallback cb a \<and> clks \<noteq> []) \<longrightarrow>
         TIMER_RESOLUTION_MS e \<le> next_fire_duration_ms tk')"
  using assms(1,2)
proof (induction clks arbitrary: w tk)
  case Nil
  then show ?case by simp
next
  case (Cons clk clks)
  from invoke_keeps_task [OF Cons.prems res c, of "fst clk" "snd clk"]
  obtain tk1 where one: "heap (invoke e c (fst clk) (snd clk) w) a = Some tk1"
    and i1: "interval_ms tk1 = interval_ms tk"
    and p1: "c = PeriodicCallback cb a \<longrightarrow> TIMER_RESOLUTION_MS e \<le> next_fire_duration_ms tk1"
    and o1: "c = OneshotCallback cb a \<longrightarrow> next_fire_duration_ms tk1 = next_fire_duration_ms tk"
    by blast
  have "uint (interval_ms tk1) < 2 ^ 63" using Cons.prems(2) i1 by simp
  from Cons.IH [OF one this]
  obtain tk' where all: "heap (invoke_all e c clks (invoke e c (fst clk) (snd clk) w)) a = Some tk'"
    and i': "interval_ms tk' = interval_ms tk1"
    and b': "TIMER_RESOLUTION_MS e \<le> next_fire_duration_ms tk1
           \<or> (c = PeriodicCallback cb a \<and> clks \<noteq> []) \<longrightarrow>
         TIMER_RESOLUTION_MS e \<le> next_fire_duration_ms tk'"
    by blast
  from all i' i1 b' p1 o1 c show ?case by auto
qed

text \<open>
  Claim C5, as stated, fails at creation: \<^verbatim>\<open>InitTimerTask\<close> copies the period into the
  next firing offset, and the only bounds on the period are zero and the maximum interval.
  With a resolution of 2 ms the valid period 1 gives a task whose first offset is 1.
\<close>

theorem creation_below_resolution_counterexample:
  "period (timer_opt (new_Timer 7 1 1 False)) \<noteq> 0
   \<and> ucast (period (timer_opt (new_Timer 7 1 1 False))) < TIMER_MAX_INTERVAL_MS sample_env
   \<and> fst (InitTimerTask sample_env (new_Timer 7 1 1 False) empty_world)
   \<and> map_option next_fire_duration_ms
        (heap (snd (snd (InitTimerTask sample_env (new_Timer 7 1 1 False) empty_world))) 0)
       = Some 1
   \<and> (1 :: u64) < TIMER_RESOLUTION_MS sample_env"
  by (simp add: InitTimerTask_def new_TimerTask_def Let_def sample_defs word_le_def
      word_less_def)

text \<open>
  Claim C5, amended. For a resolution of at most \<open>2 ^ 63\<close> and a task made by
  \<^verbatim>\<open>InitTimerTask\<close>: the offset at creation is the period; if the period is at least the
  resolution, the offset is at least the resolution after any number of invocations of the
  task's closure; and for a periodic task it is so after every invocation, whatever the
  period and the clock readings.
\<close>

theorem next_fire_lower_bound:
  assumes res: "uint (TIMER_RESOLUTION_MS e) \<le> 2 ^ 63"
    and init: "InitTimerTask e t w = (True, t', w')"
  shows "\<exists>tk0 c. heap w' (fresh w) = Some tk0 \<and> callback tk0 = Some c
      \<and> next_fire_duration_ms tk0 = ucast (period (timer_opt t))
      \<and> (\<exists>tk. heap (invoke_all e c clks w') (fresh w) = Some tk
            \<and> (TIMER_RESOLUTION_MS e \<le> ucast (period (timer_opt t)) \<longrightarrow>
                 TIMER_RESOLUTION_MS e \<le> next_fire_duration_ms tk)
            \<and> (\<not> oneshot (timer_opt t) \<and> clks \<noteq> [] \<longrightarrow>
                 TIMER_RESOLUTION_MS e \<le> next_fire_duration_ms tk))"
proof -
  let ?a = "fresh w"
  let ?cb = "user_callback (timer_opt t)"
  let ?c = "if oneshot (timer_opt t) then OneshotCallback ?cb ?a else PeriodicCallback ?cb ?a"
  from init have ok: "period (timer_opt t) \<noteq> 0"
      "ucast (period (timer_opt t)) < TIMER_MAX_INTERVAL_MS e"
    using InitTimerTask_fails_iff [of e t w] by (auto simp: not_le)
  from InitTimerTask_valid [OF ok, of w] init
  obtain tk0 where live: "heap w' ?a = Some tk0" and cb: "callback tk0 = Some ?c"
    and iv: "interval_ms tk0 = ucast (period (timer_opt t))"
    and nx: "next_fire_duration_ms tk0 = ucast (period (timer_opt t))"
    by auto
  have small: "uint (interval_ms tk0) < 2 ^ 63" unfolding iv by (rule uint_ucast_period)
  have kind: "?c = OneshotCallback ?cb ?a \<or> ?c = PeriodicCallback ?cb ?a" by simp
  from invoke_all_bound [OF live small res kind, of clks]
  obtain tk where "heap (invoke_all e ?c clks w') ?a = Some tk"
    and "TIMER_RESOLUTION_MS e \<le> next_fire_duration_ms tk0
           \<or> (?c = PeriodicCallback ?cb ?a \<and> clks \<noteq> []) \<longrightarrow>
         TIMER_RESOLUTION_MS e \<le> next_fire_duration_ms tk"
    by blast
  with live cb nx show ?thesis by (intro exI [of _ tk0] exI [of _ ?c]) auto
qed

subsection \<open>One-shot tasks\<close>

lemma run_idle: "wheel w = [] \<Longrightarrow> run e clks w = w"
  by (induction clks) (simp_all add: Tick_def)

text \<open>
  Claim C7. The one-shot closure leaves the store (so every field of every task), the
  timing wheel's queue, the allocator and the error log as they were, and runs the user's
  callback once if the task is alive and not at all if it is gone. So after
  \<^verbatim>\<open>Start\<close> on an idle one-shot handle with a valid period and an empty queue, however
  many times the dispatcher then runs, the user's callback has run exactly once and the
  queue is empty.
\<close>

theorem oneshot_fires_once:
  "heap (oneshot_callback cb a w) = heap w
   \<and> wheel (oneshot_callback cb a w) = wheel w
   \<and> fresh (oneshot_callback cb a w) = fresh w
   \<and> aerror (oneshot_callback cb a w) = aerror w
   \<and> invoked (oneshot_callback cb a w) =
       (if heap w a = None then invoked w else invoked w @ [cb])
   \<and> (IsRealityMode e \<and> \<not> started t \<and> period (timer_opt t) \<noteq> 0
        \<and> ucast (period (timer_opt t)) < TIMER_MAX_INTERVAL_MS e
        \<and> oneshot (timer_opt t) \<and> wheel w = [] \<and> clks \<noteq> [] \<longrightarrow>
      invoked (run e clks (snd (Start e t w))) = invoked w @ [user_callback (timer_opt t)]
      \<and> wheel (run e clks (snd (Start e t w))) = []
      \<and> heap (run e clks (snd (Start e t w))) = heap (snd (Start e t w)))"
proof (intro conjI impI)
  assume h: "IsRealityMode e \<and> \<not> started t \<and> period (timer_opt t) \<noteq> 0
        \<and> ucast (period (timer_opt t)) < TIMER_MAX_INTERVAL_MS e
        \<and> oneshot (timer_opt t) \<and> wheel w = [] \<and> clks \<noteq> []"
  then obtain clk rest where clks: "clks = clk # rest" by (cases clks) auto
  let ?w1 = "snd (Start e t w)"
  have tick: "Tick e clk ?w1 =
      ?w1\<lparr>wheel := [], invoked := invoked w @ [user_callback (timer_opt t)]\<rparr>"
    using h by (simp add: Start_valid Tick_def oneshot_callback_def)
  have "run e clks ?w1 = ?w1\<lparr>wheel := [], invoked := invoked w @ [user_callback (timer_opt t)]\<rparr>"
    unfolding clks run.simps tick by (rule run_idle) simp
  then show "invoked (run e clks ?w1) = invoked w @ [user_callback (timer_opt t)]"
    "wheel (run e clks ?w1) = []" "heap (run e clks ?w1) = heap ?w1"
    by simp_all
qed (simp_all add: oneshot_callback_def split: option.splits)

subsection \<open>Stop against a closure that has resolved its reference\<close>

lemmas thread_defs = running_def closure_step_def stop_step_def

text \<open>
  Claim C10 does not hold of the code. The closure resolves its weak reference before it
  takes the mutex and does not look again once it has it. In the first schedule the
  closure resolves the reference, \<^verbatim>\<open>Stop\<close> then runs from its first line to its return
  without waiting, since the mutex is free, and the closure goes on to take the mutex and
  call the user's callback: an invocation begins after \<^verbatim>\<open>Stop\<close> has returned. In the
  second the closure takes the mutex when \<^verbatim>\<open>Stop\<close> has released it and not yet
  returned: \<^verbatim>\<open>Stop\<close> returns while the callback runs. The third is the order the
  mutex is there for: the closure holds it when \<^verbatim>\<open>Stop\<close> asks, \<^verbatim>\<open>Stop\<close> waits,
  however often it is scheduled, and returns after the callback has ended.
\<close>

theorem Stop_races_with_closure:
  "events (interleave
      [Scheduler, Caller, Caller, Caller, Caller, Caller, Caller, Scheduler, Scheduler]
      running) = [StopReturns, CallbackBegins]
   \<and> events (interleave
      [Scheduler, Caller, Caller, Caller, Caller, Caller, Scheduler, Scheduler, Caller,
       Scheduler]
      running) = [CallbackBegins, StopReturns, CallbackEnds]
   \<and> events (interleave
      [Scheduler, Scheduler, Scheduler, Caller, Caller, Caller, Caller, Caller, Scheduler,
       Scheduler, Caller, Caller, Caller, Caller]
      running) = [CallbackBegins, CallbackEnds, StopReturns]"
  by (simp add: thread_defs)

lemmas llround_defs = llround_unsigned_ieee_exact llround_signed_ieee_exact round_half_away_def

subsection \<open>Concrete runs\<close>


text \<open>
  The same task fires 95 ms after its last start: the error goes from 3 ms to -2 ms.
\<close>

theorem periodic_error_update_witness:
  "heap late_world 0 = Some late_task
   \<and> last_execute_time_ns late_task \<noteq> 0
   \<and> map_option (sint \<circ> accumulated_error_ns)
       (heap (periodic_callback sample_env 1 0 1095000000 1096000000 late_world) 0)
       = Some (- 2000000)
   \<and> map_option last_execute_time_ns
       (heap (periodic_callback sample_env 1 0 1095000000 1096000000 late_world) 0)
       = Some 1095000000"
proof -
  have live: "heap late_world 0 = Some late_task" by (simp add: late_world_def)
  from periodic_error_update [OF live, of sample_env 1 1095000000 1096000000, THEN conjunct1]
  show ?thesis
    by (auto simp: late_world_def late_task_def)
qed

text \<open>
  A handle started and stopped: its submission is still queued and its task is gone.
\<close>

theorem dead_reference_noop_witness:
  "heap (snd (Stop (fst (Start sample_env (new_Timer 7 100 1 False) empty_world))
                   (snd (Start sample_env (new_Timer 7 100 1 False) empty_world)))) 0 = None
   \<and> wheel (snd (Stop (fst (Start sample_env (new_Timer 7 100 1 False) empty_world))
                   (snd (Start sample_env (new_Timer 7 100 1 False) empty_world)))) = [0]
   \<and> periodic_callback sample_env 1 0 1101000000 1106000000
        (snd (Stop (fst (Start sample_env (new_Timer 7 100 1 False) empty_world))
                   (snd (Start sample_env (new_Timer 7 100 1 False) empty_world))))
      = snd (Stop (fst (Start sample_env (new_Timer 7 100 1 False) empty_world))
                   (snd (Start sample_env (new_Timer 7 100 1 False) empty_world)))
   \<and> oneshot_callback 1 0
        (snd (Stop (fst (Start sample_env (new_Timer 7 100 1 False) empty_world))
                   (snd (Start sample_env (new_Timer 7 100 1 False) empty_world))))
      = snd (Stop (fst (Start sample_env (new_Timer 7 100 1 False) empty_world))
                   (snd (Start sample_env (new_Timer 7 100 1 False) empty_world)))"
proof -
  let ?w = "snd (Stop (fst (Start sample_env (new_Timer 7 100 1 False) empty_world))
                   (snd (Start sample_env (new_Timer 7 100 1 False) empty_world)))"
  have dead: "heap ?w 0 = None"
    by (simp add: Start_def Stop_def InitTimerTask_def AddTask_def Let_def sample_defs)
  have q: "wheel ?w = [0]"
    by (simp add: Start_def Stop_def InitTimerTask_def AddTask_def Let_def sample_defs)
  from dead_reference_noop [OF dead, of 1 sample_env 1101000000 1106000000] dead q
  show ?thesis by simp
qed

text \<open>
  A periodic task of period 1 ms with a resolution of 2 ms: one firing lifts the offset
  to the resolution.
\<close>

theorem next_fire_lower_bound_witness:
  "uint (TIMER_RESOLUTION_MS sample_env) \<le> 2 ^ 63
   \<and> fst (InitTimerTask sample_env (new_Timer 7 1 1 False) empty_world)
   \<and> map_option next_fire_duration_ms
        (heap (invoke_all sample_env (PeriodicCallback 1 0) [(1000000000, 1000000000)]
           (snd (snd (InitTimerTask sample_env (new_Timer 7 1 1 False) empty_world)))) 0)
       = Some 2"
proof -
  let ?i = "InitTimerTask sample_env (new_Timer 7 1 1 False) empty_world"
  have res: "uint (TIMER_RESOLUTION_MS sample_env) \<le> 2 ^ 63" by (simp add: sample_env_def)
  have init: "?i = (True, fst (snd ?i), snd (snd ?i))"
    by (simp add: InitTimerTask_def Let_def sample_defs word_le_def)
  from next_fire_lower_bound [OF res init, of "[(1000000000, 1000000000)]"] res
  show ?thesis
    by (simp add: InitTimerTask_def new_TimerTask_def periodic_callback_def update_error_def
        decide_next_def AddTask_def Let_def sample_defs llround_defs word_le_def word_sle_eq)
qed

text \<open>A one-shot handle of period 50 ms and two runs of the dispatcher.\<close>

theorem oneshot_fires_once_witness:
  "IsRealityMode sample_env \<and> oneshot (timer_opt (new_Timer 7 50 1 True))
   \<and> invoked (run sample_env [(1000000000, 1001000000), (1050000000, 1051000000)]
        (snd (Start sample_env (new_Timer 7 50 1 True) empty_world))) = [1]
   \<and> wheel (run sample_env [(1000000000, 1001000000), (1050000000, 1051000000)]
        (snd (Start sample_env (new_Timer 7 50 1 True) empty_world))) = []"
  using oneshot_fires_once [of 1 0 empty_world sample_env "new_Timer 7 50 1 True"
      "[(1000000000, 1001000000), (1050000000, 1051000000)]"]
  by (simp add: sample_defs)

end
